theory Spec2Isabelle
  imports Main
begin

section \<open>The change-triggered commit pipeline\<close>

text \<open>
  A shallow embedding of the two scripts \<^verbatim>\<open>scripts/auto_commit.py\<close> and
  \<^verbatim>\<open>scripts/watch_changes.py\<close>. Both scripts are sequences of calls to the outside
  world (the shell, the clock, the logger), so the embedding passes an explicit world
  through every function: the world holds what the outside can observe (the commands
  run, the records logged, the sleeps, in order) and what the program can read back
  (the clock, the repository behind the shell).

  Times are integers counting microseconds, the resolution of \<^verbatim>\<open>datetime\<close>, and
  differences of times are compared exactly (the rounding of \<^verbatim>\<open>total_seconds()\<close> to a
  float is not modelled). A sleep lasts as long as it was asked to; logging and reading
  the clock take no time; a child process takes the time its environment says.
  Strings are lists of bytes. A child process that cannot be started at all is
  outside the model; a child whose output does not decode is in it.
\<close>

subsection \<open>Processes, log records and the world of \<^verbatim>\<open>auto_commit.py\<close>\<close>

text \<open>What \<^verbatim>\<open>subprocess.run(..., capture_output=True)\<close> captures of a finished child
  process: the exit status and the bytes of the two streams.\<close>

record proc =
  returncode :: int
  stdout :: string
  stderr :: string

datatype level = INFO | ERROR

text \<open>
  One constructor for each format string handed to the logger of \<^verbatim>\<open>auto_commit.py\<close>,
  carrying the interpolated values:
  \<^item> \<open>Command_failed c\<close>: \<^verbatim>\<open>f"Command failed: {command}"\<close>
  \<^item> \<open>Error_stream s\<close>: \<^verbatim>\<open>f"Error: {e.stderr}"\<close>, for the decoded error stream \<open>s\<close>
  \<^item> \<open>Changes_committed m\<close>: \<^verbatim>\<open>f"Changes committed: {message}"\<close>
  \<^item> \<open>Failed_to_push\<close>: \<^verbatim>\<open>"Failed to push changes"\<close>
  \<^item> \<open>Changes_pushed\<close>: \<^verbatim>\<open>"Changes pushed to remote repository"\<close>
  \<^item> \<open>Monitoring p i\<close>: \<^verbatim>\<open>f"Monitoring {path_to_watch} for changes every {interval} seconds"\<close>
  \<^item> \<open>Changes_detected\<close>, \<open>No_changes_detected\<close>: the two records of the periodic loop
  \<^item> \<open>Failed_to_commit\<close>, \<open>No_changes_to_commit\<close>: the two records of the one-shot mode
\<close>

datatype message =
    Command_failed string
  | Error_stream string
  | Changes_committed string
  | Failed_to_push
  | Changes_pushed
  | Monitoring string int
  | Changes_detected
  | No_changes_detected
  | Failed_to_commit
  | No_changes_to_commit

datatype action = Exec string | Log level message | Sleep int

record 'r world =
  repo :: 'r
  clock :: int
  trace :: "action list"

text \<open>
  The collaborators the script does not implement: the shell, which runs a command line
  against the repository and leaves a finished process and the repository behind; the
  rendering of a time by \<^verbatim>\<open>strftime("%Y-%m-%d %H:%M:%S")\<close>; and the decoding of captured
  bytes to text in the encoding of the locale, which \<^verbatim>\<open>text=True\<close> asks for. \<open>decode\<close>
  is \<open>None\<close> on bytes that are not valid in that encoding.
\<close>

record 'r env =
  shell :: "string \<Rightarrow> 'r \<Rightarrow> proc \<times> 'r"
  strftime :: "int \<Rightarrow> string"
  decode :: "string \<Rightarrow> string option"

text \<open>The exceptions that leave the script: a negative sleep, and captured bytes that do
  not decode.\<close>

datatype error = ValueError | UnicodeDecodeError

text \<open>The exception, if any, of a result.\<close>

definition raised :: "error + 'a \<Rightarrow> error option" where
  "raised res = (case res of Inl err \<Rightarrow> Some err | Inr _ \<Rightarrow> None)"

definition logger :: "level \<Rightarrow> message \<Rightarrow> 'r world \<Rightarrow> 'r world" where
  "logger l m w = w\<lparr>trace := trace w @ [Log l m]\<rparr>"

text \<open>\<^verbatim>\<open>time.sleep(secs)\<close> raises \<^verbatim>\<open>ValueError\<close> on a negative length.\<close>

definition time_sleep :: "int \<Rightarrow> 'r world \<Rightarrow> error + 'r world" where
  "time_sleep secs w =
     (if secs < 0 then Inl ValueError
      else Inr (w\<lparr>clock := clock w + secs * 1000000, trace := trace w @ [Sleep secs]\<rparr>))"

text \<open>\<^verbatim>\<open>str.strip()\<close>, on the ASCII white space.\<close>

definition isspace :: "char \<Rightarrow> bool" where
  "isspace c = (c \<in> set [CHR 0x09, CHR 0x0A, CHR 0x0B, CHR 0x0C, CHR 0x0D,
                          CHR 0x1C, CHR 0x1D, CHR 0x1E, CHR 0x1F, CHR 0x20])"

definition strip :: "string \<Rightarrow> string" where
  "strip s = rev (dropWhile isspace (rev (dropWhile isspace s)))"

subsection \<open>\<^verbatim>\<open>auto_commit.py\<close>\<close>

text \<open>
  \<^verbatim>\<open>run_command\<close>. \<^verbatim>\<open>subprocess.run\<close> waits for the child, then decodes the two
  captured streams, and only then looks at the exit status. Bytes that do not decode
  raise \<^verbatim>\<open>UnicodeDecodeError\<close>, whatever the exit status; \<^verbatim>\<open>run_command\<close> does not catch
  it, so it leaves the function with nothing logged. With \<^verbatim>\<open>check=True\<close> a non-zero
  exit status raises \<^verbatim>\<open>CalledProcessError\<close>, which is caught, logged twice and turned
  into \<^verbatim>\<open>None\<close>. A result \<open>Inl err\<close> is the exception \<open>err\<close> leaving the function; the
  world beside it is the world at that moment.
\<close>

definition run_command ::
  "'r env \<Rightarrow> string \<Rightarrow> 'r world \<Rightarrow> (error + string option) \<times> 'r world" where
  "run_command e command w =
     (let (process, r) = shell e command (repo w);
          w1 = w\<lparr>repo := r, trace := trace w @ [Exec command]\<rparr>
      in case decode e (stdout process) of
           None \<Rightarrow> (Inl UnicodeDecodeError, w1)
         | Some out \<Rightarrow>
             (case decode e (stderr process) of
                None \<Rightarrow> (Inl UnicodeDecodeError, w1)
              | Some err \<Rightarrow>
                  if returncode process = 0 then (Inr (Some (strip out)), w1)
                  else (Inr None, logger ERROR (Error_stream err)
                                    (logger ERROR (Command_failed command) w1))))"

definition get_git_status ::
  "'r env \<Rightarrow> 'r world \<Rightarrow> (error + string option) \<times> 'r world" where
  "get_git_status e w = run_command e ''git status --porcelain'' w"

definition commit_command :: "string \<Rightarrow> string" where
  "commit_command message = ''git commit -m '' @ [CHR 0x22] @ message @ [CHR 0x22]"

text \<open>The message \<^verbatim>\<open>commit_changes\<close> makes up when it is given none.\<close>

definition default_message :: "'r env \<Rightarrow> 'r world \<Rightarrow> string" where
  "default_message e w = ''Auto-commit: Update documentation at '' @ strftime e (clock w)"

definition commit_changes ::
  "'r env \<Rightarrow> string option \<Rightarrow> 'r world \<Rightarrow> (error + bool) \<times> 'r world" where
  "commit_changes e message_arg w =
     (let message = (case message_arg of None \<Rightarrow> default_message e w | Some m \<Rightarrow> m);
          (stage_result, w1) = run_command e ''git add --all'' w
      in case stage_result of
           Inl err \<Rightarrow> (Inl err, w1)
         | Inr None \<Rightarrow> (Inr False, w1)
         | Inr (Some _) \<Rightarrow>
             (let (commit_result, w2) = run_command e (commit_command message) w1
              in case commit_result of
                   Inl err \<Rightarrow> (Inl err, w2)
                 | Inr None \<Rightarrow> (Inr False, w2)
                 | Inr (Some _) \<Rightarrow> (Inr True, logger INFO (Changes_committed message) w2)))"

definition push_changes :: "'r env \<Rightarrow> 'r world \<Rightarrow> (error + bool) \<times> 'r world" where
  "push_changes e w =
     (let (push_result, w1) = run_command e ''git push'' w
      in case push_result of
           Inl err \<Rightarrow> (Inl err, w1)
         | Inr None \<Rightarrow> (Inr False, logger ERROR Failed_to_push w1)
         | Inr (Some _) \<Rightarrow> (Inr True, logger INFO Changes_pushed w1))"

text \<open>Python's truth value of \<^verbatim>\<open>status\<close>: \<^verbatim>\<open>None\<close> and the empty string are false.\<close>

definition truthy :: "string option \<Rightarrow> bool" where
  "truthy status = (case status of None \<Rightarrow> False | Some s \<Rightarrow> s \<noteq> [])"

text \<open>
  The body of the \<^verbatim>\<open>while True\<close> loop of \<^verbatim>\<open>auto_commit_changes\<close>, up to the sleep. The
  result \<open>Some err\<close> is an exception on its way out, \<open>None\<close> is the body done.
\<close>

definition auto_commit_check :: "'r env \<Rightarrow> 'r world \<Rightarrow> error option \<times> 'r world" where
  "auto_commit_check e w =
     (let (status_result, w1) = get_git_status e w
      in case status_result of
           Inl err \<Rightarrow> (Some err, w1)
         | Inr status \<Rightarrow>
             if truthy status then
               (let (commit_result, w2) = commit_changes e None (logger INFO Changes_detected w1)
                in case commit_result of
                     Inl err \<Rightarrow> (Some err, w2)
                   | Inr committed \<Rightarrow>
                       if committed then
                         (let (push_result, w3) = push_changes e w2 in (raised push_result, w3))
                       else (None, w2))
             else (None, logger INFO No_changes_detected w1))"

text \<open>
  The loop itself never returns. The model runs at most \<open>n\<close> rounds of it: the result
  \<open>None\<close> is the loop still running after \<open>n\<close> rounds, \<open>Some err\<close> is the exception that
  ended it.
\<close>

fun auto_commit_loop :: "'r env \<Rightarrow> int \<Rightarrow> nat \<Rightarrow> 'r world \<Rightarrow> error option \<times> 'r world" where
  "auto_commit_loop e interval 0 w = (None, w)"
| "auto_commit_loop e interval (Suc n) w =
     (let (exc, w1) = auto_commit_check e w
      in case exc of
           Some err \<Rightarrow> (Some err, w1)
         | None \<Rightarrow>
             (case time_sleep interval w1 of
                Inl err \<Rightarrow> (Some err, w1)
              | Inr w2 \<Rightarrow> auto_commit_loop e interval n w2))"

definition auto_commit_changes ::
  "'r env \<Rightarrow> string \<Rightarrow> int \<Rightarrow> nat \<Rightarrow> 'r world \<Rightarrow> error option \<times> 'r world" where
  "auto_commit_changes e path_to_watch interval n w =
     auto_commit_loop e interval n (logger INFO (Monitoring path_to_watch interval) w)"

text \<open>The \<^verbatim>\<open>--commit-only\<close> branch of the main block; \<open>Some err\<close> is the exception that
  ended the script.\<close>

definition main_commit_only :: "'r env \<Rightarrow> 'r world \<Rightarrow> error option \<times> 'r world" where
  "main_commit_only e w =
     (let (status_result, w1) = get_git_status e w
      in case status_result of
           Inl err \<Rightarrow> (Some err, w1)
         | Inr status \<Rightarrow>
             if truthy status then
               (let (commit_result, w2) = commit_changes e None w1
                in case commit_result of
                     Inl err \<Rightarrow> (Some err, w2)
                   | Inr committed \<Rightarrow>
                       if committed then
                         (let (push_result, w3) = push_changes e w2 in (raised push_result, w3))
                       else (None, logger ERROR Failed_to_commit w2))
             else (None, logger INFO No_changes_to_commit w1))"

text \<open>What an observer of the version-control client sees: the command lines, in order.\<close>

fun execs :: "action list \<Rightarrow> string list" where
  "execs [] = []"
| "execs (Exec c # as) = c # execs as"
| "execs (_ # as) = execs as"

text \<open>The same world with the records \<open>t\<close> in front of its trace.\<close>

definition prefix_trace :: "action list \<Rightarrow> 'r world \<Rightarrow> 'r world" where
  "prefix_trace t w = w\<lparr>trace := t @ trace w\<rparr>"

fun errors_logged :: "action list \<Rightarrow> message list" where
  "errors_logged [] = []"
| "errors_logged (Log ERROR m # as) = m # errors_logged as"
| "errors_logged (_ # as) = errors_logged as"

subsection \<open>A small repository to run the script against\<close>

text \<open>
  A stand-in for the version-control client, used to run the definitions on concrete
  inputs: a repository is the number of uncommitted changes and the number of commits
  not yet pushed. Every command line that starts with one of \<open>broken\<close> exits with
  status 128 and leaves the repository alone. In \<open>garbled_git\<close> such a command line also
  writes a byte to its error stream that the decoder of the stand-in, which takes every
  byte but \<open>0xFF\<close>, does not accept.
\<close>

record toy_repo =
  pending :: nat
  unpushed :: nat

fun has_prefix :: "string list \<Rightarrow> string \<Rightarrow> bool" where
  "has_prefix [] c = False"
| "has_prefix (p # ps) c = (if take (length p) c = p then True else has_prefix ps c)"

definition toy_git :: "string list \<Rightarrow> string \<Rightarrow> toy_repo \<Rightarrow> proc \<times> toy_repo" where
  "toy_git broken c r =
     (if has_prefix broken c then
        (\<lparr>returncode = 128, stdout = [], stderr = ''fatal: unable to access the repository''\<rparr>, r)
      else if c = ''git status --porcelain'' then
        (\<lparr>returncode = 0,
          stdout = (if pending r = 0 then [] else '' M docs/index.md'' @ [CHR 0x0A]),
          stderr = []\<rparr>, r)
      else if c = ''git add --all'' then
        (\<lparr>returncode = 0, stdout = [], stderr = []\<rparr>, r)
      else if take 14 c = ''git commit -m '' then
        (if pending r = 0 then
           (\<lparr>returncode = 1, stdout = ''nothing to commit, working tree clean'', stderr = []\<rparr>, r)
         else
           (\<lparr>returncode = 0, stdout = ''[main 1a2b3c4] 1 file changed'', stderr = []\<rparr>,
            r\<lparr>pending := 0, unpushed := Suc (unpushed r)\<rparr>))
      else if c = ''git push'' then
        (\<lparr>returncode = 0, stdout = [], stderr = ''To origin''\<rparr>, r\<lparr>unpushed := 0\<rparr>)
      else
        (\<lparr>returncode = 127, stdout = [], stderr = ''command not found''\<rparr>, r))"

definition garbled_git :: "string list \<Rightarrow> string \<Rightarrow> toy_repo \<Rightarrow> proc \<times> toy_repo" where
  "garbled_git broken c r =
     (if has_prefix broken c then
        (\<lparr>returncode = 128, stdout = [], stderr = ''fatal: '' @ [CHR 0xFF]\<rparr>, r)
      else toy_git [] c r)"

definition toy_decode :: "string \<Rightarrow> string option" where
  "toy_decode bytes = (if CHR 0xFF \<in> set bytes then None else Some bytes)"

definition toy_env :: "string list \<Rightarrow> toy_repo env" where
  "toy_env broken =
     \<lparr>shell = toy_git broken, strftime = (\<lambda>t. ''2024-05-17 09:30:00''), decode = toy_decode\<rparr>"

definition garbled_env :: "string list \<Rightarrow> toy_repo env" where
  "garbled_env broken =
     \<lparr>shell = garbled_git broken, strftime = (\<lambda>t. ''2024-05-17 09:30:00''),
      decode = toy_decode\<rparr>"

definition toy_world :: "nat \<Rightarrow> toy_repo world" where
  "toy_world n = \<lparr>repo = \<lparr>pending = n, unpushed = 0\<rparr>, clock = 0, trace = []\<rparr>"

subsection \<open>Events, the handler and the world of \<^verbatim>\<open>watch_changes.py\<close>\<close>

record event =
  event_type :: string
  src_path :: string
  is_directory :: bool

text \<open>The fields of a \<^verbatim>\<open>ChangeHandler\<close>; \<open>last_modified\<close> is a reading of the clock.\<close>

record handler =
  debounce_time :: int
  last_modified :: int
  timer_running :: bool

text \<open>
  The records of the watcher's logger:
  \<^item> \<open>Change_detected p k\<close>: \<^verbatim>\<open>f"Change detected: {event.src_path} ({event.event_type})"\<close>
  \<^item> \<open>Changes_settled d\<close>: \<^verbatim>\<open>f"Changes settled after {self.debounce_time} seconds"\<close>
  \<^item> \<open>Triggering_auto_commit\<close>: \<^verbatim>\<open>"Triggering auto commit"\<close>
  \<^item> \<open>Auto_commit_completed\<close>: \<^verbatim>\<open>"Auto commit completed successfully"\<close>
  \<^item> \<open>Auto_commit_failed rc\<close>: \<^verbatim>\<open>f"Auto commit failed: {e}"\<close>, for the
    \<^verbatim>\<open>CalledProcessError\<close> of exit status \<open>rc\<close>
\<close>

datatype watcher_message =
    Change_detected string string
  | Changes_settled int
  | Triggering_auto_commit
  | Auto_commit_completed
  | Auto_commit_failed int

text \<open>
  What the watcher does to the outside: it logs, it sleeps, and it runs
  \<^verbatim>\<open>auto_commit.py --commit-only\<close> as a child process. \<open>Commit_script t rc\<close> is one run
  of the child, started at time \<open>t\<close> and ended with exit status \<open>rc\<close>.
\<close>

datatype watcher_action =
    WLog level watcher_message
  | WSleep int
  | Commit_script int int

record watcher_world =
  now :: int
  wtrace :: "watcher_action list"

text \<open>
  The child process is outside the watcher: \<open>script t\<close> is the exit status of a child
  started at time \<open>t\<close> and how long it ran.
\<close>

type_synonym commit_script = "int \<Rightarrow> int \<times> nat"

definition wlogger :: "level \<Rightarrow> watcher_message \<Rightarrow> watcher_world \<Rightarrow> watcher_world" where
  "wlogger l m w = w\<lparr>wtrace := wtrace w @ [WLog l m]\<rparr>"

text \<open>\<^verbatim>\<open>time.sleep(1)\<close>, the polling tick.\<close>

definition sleep_1 :: "watcher_world \<Rightarrow> watcher_world" where
  "sleep_1 w = w\<lparr>now := now w + 1000000, wtrace := wtrace w @ [WSleep 1]\<rparr>"

text \<open>\<^verbatim>\<open>os.path.basename\<close> of \<^verbatim>\<open>posixpath\<close>: what follows the last slash.\<close>

definition basename :: "string \<Rightarrow> string" where
  "basename p = rev (takeWhile (\<lambda>c. c \<noteq> CHR ''/'') (rev p))"

definition startswith :: "string \<Rightarrow> string \<Rightarrow> bool" where
  "startswith s pre = (take (length pre) s = pre)"

subsection \<open>\<^verbatim>\<open>watch_changes.py\<close>\<close>

text \<open>\<^verbatim>\<open>ChangeHandler.__init__\<close>\<close>

definition ChangeHandler :: "int \<Rightarrow> watcher_world \<Rightarrow> handler" where
  "ChangeHandler d w = \<lparr>debounce_time = d, last_modified = now w, timer_running = False\<rparr>"

text \<open>
  \<^verbatim>\<open>_trigger_commit\<close>: \<^verbatim>\<open>subprocess.run(..., check=True)\<close> raises
  \<^verbatim>\<open>CalledProcessError\<close> on a non-zero exit status, and the handler catches it.
\<close>

definition trigger_commit :: "commit_script \<Rightarrow> watcher_world \<Rightarrow> watcher_world" where
  "trigger_commit script w =
     (let w1 = wlogger INFO Triggering_auto_commit w;
          (rc, duration) = script (now w1);
          w2 = w1\<lparr>now := now w1 + int duration, wtrace := wtrace w1 @ [Commit_script (now w1) rc]\<rparr>
      in if rc = 0 then wlogger INFO Auto_commit_completed w2
         else wlogger ERROR (Auto_commit_failed rc) w2)"

text \<open>
  \<^verbatim>\<open>_start_timer\<close>: \<^verbatim>\<open>(datetime.now() - self.last_modified).total_seconds()\<close> is
  compared with \<^verbatim>\<open>self.debounce_time\<close>, a number of seconds; the model compares the
  same two quantities in microseconds. Each round that does not fire sleeps one second,
  so the loop ends.
\<close>

function start_timer :: "commit_script \<Rightarrow> handler \<times> watcher_world \<Rightarrow> handler \<times> watcher_world" where
  "start_timer script (h, w) =
     (let time_since_last_change = now w - last_modified h
      in if time_since_last_change \<ge> debounce_time h * 1000000 then
           (h\<lparr>timer_running := False\<rparr>,
            trigger_commit script (wlogger INFO (Changes_settled (debounce_time h)) w))
         else start_timer script (h, sleep_1 w))"
  by pat_completeness auto
termination
  by (relation "measure (\<lambda>(script, h, w). nat (debounce_time h * 1000000 - (now w - last_modified h)))")
     (auto simp: sleep_1_def)

text \<open>\<^verbatim>\<open>on_any_event\<close>: the call of \<^verbatim>\<open>_start_timer\<close> is an ordinary method call, so the
  handler returns only when the timer loop has.\<close>

fun on_any_event :: "commit_script \<Rightarrow> event \<Rightarrow> handler \<times> watcher_world \<Rightarrow> handler \<times> watcher_world" where
  "on_any_event script ev (h, w) =
     (if is_directory ev \<or> startswith (basename (src_path ev)) ''.'' then (h, w)
      else
        (let w1 = wlogger INFO (Change_detected (src_path ev) (event_type ev)) w;
             h1 = h\<lparr>last_modified := now w1\<rparr>
         in if \<not> timer_running h1 then start_timer script (h1\<lparr>timer_running := True\<rparr>, w1)
            else (h1, w1)))"

text \<open>
  The observer thread of the watch backend takes the events off its queue one at a time
  and calls the handler for each; \<open>(t, ev)\<close> is an event that the thread hands to the
  handler and that reached the queue at time \<open>t\<close>. The thread picks it up at \<open>t\<close>, or when
  the handler has returned from the event before it, whichever is later.
\<close>

fun dispatch_events ::
  "commit_script \<Rightarrow> (int \<times> event) list \<Rightarrow> handler \<times> watcher_world \<Rightarrow> handler \<times> watcher_world" where
  "dispatch_events script [] (h, w) = (h, w)"
| "dispatch_events script ((t, ev) # queue) (h, w) =
     dispatch_events script queue (on_any_event script ev (h, w\<lparr>now := max (now w) t\<rparr>))"

text \<open>The times at which the commit action was started, and the sleeps taken.\<close>

fun firings :: "watcher_action list \<Rightarrow> int list" where
  "firings [] = []"
| "firings (Commit_script t rc # as) = t # firings as"
| "firings (_ # as) = firings as"

fun sleeps :: "watcher_action list \<Rightarrow> nat" where
  "sleeps [] = 0"
| "sleeps (WSleep n # as) = Suc (sleeps as)"
| "sleeps (_ # as) = sleeps as"

text \<open>A child that always succeeds at once, one that always fails, and a file event.\<close>

definition script_ok :: commit_script where
  "script_ok t = (0, 0)"

definition script_failing :: commit_script where
  "script_failing t = (1, 250000)"

definition modified :: "string \<Rightarrow> event" where
  "modified p = \<lparr>event_type = ''modified'', src_path = p, is_directory = False\<rparr>"

definition watcher_world0 :: watcher_world where
  "watcher_world0 = \<lparr>now = 0, wtrace = []\<rparr>"

section \<open>Properties of \<^verbatim>\<open>auto_commit.py\<close>\<close>

subsection \<open>What one command leaves behind\<close>

lemma run_command_ok:
  "shell e c (repo w) = (p, r) \<Longrightarrow> decode e (stdout p) = Some out \<Longrightarrow>
   decode e (stderr p) = Some err \<Longrightarrow> returncode p = 0 \<Longrightarrow>
   run_command e c w = (Inr (Some (strip out)), w\<lparr>repo := r, trace := trace w @ [Exec c]\<rparr>)"
  by (simp add: run_command_def)

lemma run_command_failed:
  "shell e c (repo w) = (p, r) \<Longrightarrow> decode e (stdout p) = Some out \<Longrightarrow>
   decode e (stderr p) = Some err \<Longrightarrow> returncode p \<noteq> 0 \<Longrightarrow>
   run_command e c w =
     (Inr None, w\<lparr>repo := r,
                  trace := trace w @ [Exec c, Log ERROR (Command_failed c),
                                      Log ERROR (Error_stream err)]\<rparr>)"
  by (simp add: run_command_def logger_def)

lemma run_command_undecodable:
  "shell e c (repo w) = (p, r) \<Longrightarrow> decode e (stdout p) = None \<or> decode e (stderr p) = None \<Longrightarrow>
   run_command e c w = (Inl UnicodeDecodeError, w\<lparr>repo := r, trace := trace w @ [Exec c]\<rparr>)"
  by (auto simp: run_command_def Let_def split: option.splits)

lemma execs_append: "execs (xs @ ys) = execs xs @ execs ys"
  by (induction xs rule: execs.induct) simp_all

lemma errors_logged_append: "errors_logged (xs @ ys) = errors_logged xs @ errors_logged ys"
  by (induction xs rule: errors_logged.induct) simp_all

lemma execs_run_command: "execs (trace (snd (run_command e c w))) = execs (trace w) @ [c]"
  by (simp add: run_command_def logger_def execs_append Let_def split: prod.splits option.splits)

lemma repo_run_command: "repo (snd (run_command e c w)) = snd (shell e c (repo w))"
  by (simp add: run_command_def logger_def Let_def split: prod.splits option.splits)

lemma clock_run_command: "clock (snd (run_command e c w)) = clock w"
  by (simp add: run_command_def logger_def Let_def split: prod.splits option.splits)

lemma commit_command_not_push: "commit_command m \<noteq> ''git push''"
  by (simp add: commit_command_def)

lemma execs_commit_changes:
  "execs (trace (snd (commit_changes e m w))) = execs (trace w) @ [''git add --all'']
   \<or> execs (trace (snd (commit_changes e m w))) =
       execs (trace w) @ [''git add --all'',
                          commit_command (case m of None \<Rightarrow> default_message e w | Some m' \<Rightarrow> m')]"
proof -
  let ?msg = "case m of None \<Rightarrow> default_message e w | Some m' \<Rightarrow> m'"
  obtain s1 w1 where s1: "run_command e ''git add --all'' w = (s1, w1)"
    by (cases "run_command e ''git add --all'' w")
  obtain s2 w2 where s2: "run_command e (commit_command ?msg) w1 = (s2, w2)"
    by (cases "run_command e (commit_command ?msg) w1")
  have e1: "execs (trace w1) = execs (trace w) @ [''git add --all'']"
    using execs_run_command [of e "''git add --all''" w] s1 by simp
  have e2: "execs (trace w2) = execs (trace w1) @ [commit_command ?msg]"
    using execs_run_command [of e "commit_command ?msg" w1] s2 by simp
  show ?thesis
    using s1 s2 e1 e2
    by (auto simp: commit_changes_def logger_def execs_append Let_def
             split: sum.splits option.splits)
qed

lemma pushes_commit_changes:
  "count_list (execs (trace (snd (commit_changes e m w)))) ''git push''
     = count_list (execs (trace w)) ''git push''"
  using execs_commit_changes [of e m w] commit_command_not_push
  by auto

lemma pushes_get_git_status:
  "count_list (execs (trace (snd (get_git_status e w)))) ''git push''
     = count_list (execs (trace w)) ''git push''"
  by (simp add: get_git_status_def execs_run_command)

lemma execs_push_changes:
  "execs (trace (snd (push_changes e w))) = execs (trace w) @ [''git push'']"
proof -
  obtain s1 w1 where s1: "run_command e ''git push'' w = (s1, w1)"
    by (cases "run_command e ''git push'' w")
  have "execs (trace w1) = execs (trace w) @ [''git push'']"
    using execs_run_command [of e "''git push''" w] s1 by simp
  then show ?thesis
    by (simp add: push_changes_def s1 logger_def execs_append split: sum.splits option.splits)
qed

lemma repo_push_changes:
  "repo (snd (push_changes e w)) = snd (shell e ''git push'' (repo w))"
proof -
  obtain s1 w1 where s1: "run_command e ''git push'' w = (s1, w1)"
    by (cases "run_command e ''git push'' w")
  have "repo w1 = snd (shell e ''git push'' (repo w))"
    using repo_run_command [of e "''git push''" w] s1 by simp
  then show ?thesis
    by (simp add: push_changes_def s1 logger_def split: sum.splits option.splits)
qed

subsection \<open>A clean repository\<close>

text \<open>
  C2. When the status query exits with status 0 and its output, stripped, is empty, the
  one-shot mode runs the status query and nothing else: no staging, no commit, no push.
  It logs that there is nothing to commit, and the repository is the one the status
  query left. (Should the error stream of the query not decode, the script ends with
  the exception instead of the log record; it has still run the status query only.)
\<close>

theorem clean_status_skips_everything:
  assumes "shell e ''git status --porcelain'' (repo w) = (p, r)"
      and "returncode p = 0"
      and "decode e (stdout p) = Some out"
      and "strip out = []"
  shows "main_commit_only e w =
           (if decode e (stderr p) = None
            then (Some UnicodeDecodeError,
                  w\<lparr>repo := r, trace := trace w @ [Exec ''git status --porcelain'']\<rparr>)
            else (None,
                  w\<lparr>repo := r,
                    trace := trace w @ [Exec ''git status --porcelain'',
                                        Log INFO No_changes_to_commit]\<rparr>))
         \<and> execs (trace (snd (main_commit_only e w))) = execs (trace w) @ [''git status --porcelain'']
         \<and> repo (snd (main_commit_only e w)) = r"
proof (cases "decode e (stderr p)")
  case None
  then have "run_command e ''git status --porcelain'' w =
               (Inl UnicodeDecodeError,
                w\<lparr>repo := r, trace := trace w @ [Exec ''git status --porcelain'']\<rparr>)"
    using assms(1) by (simp add: run_command_undecodable)
  then show ?thesis
    using None by (simp add: main_commit_only_def get_git_status_def execs_append)
next
  case (Some err)
  then have "run_command e ''git status --porcelain'' w =
               (Inr (Some (strip out)),
                w\<lparr>repo := r, trace := trace w @ [Exec ''git status --porcelain'']\<rparr>)"
    using assms(1,2,3) by (simp add: run_command_ok)
  then show ?thesis
    using Some assms(4)
    by (simp add: main_commit_only_def get_git_status_def truthy_def logger_def execs_append)
qed

theorem clean_status_skips_everything_witness:
  "main_commit_only (toy_env []) (toy_world 0) =
     (None, (toy_world 0)\<lparr>trace := [Exec ''git status --porcelain'',
                                       Log INFO No_changes_to_commit]\<rparr>)
   \<and> execs (trace (snd (main_commit_only (toy_env []) (toy_world 0)))) = [''git status --porcelain'']
   \<and> repo (snd (main_commit_only (toy_env []) (toy_world 0))) = repo (toy_world 0)"
proof -
  let ?p = "\<lparr>returncode = 0, stdout = [], stderr = []\<rparr>"
  have run: "shell (toy_env []) ''git status --porcelain'' (repo (toy_world 0))
               = (?p, repo (toy_world 0))"
    by (simp add: toy_env_def toy_git_def toy_world_def)
  have rc: "returncode ?p = 0" by simp
  have dec: "decode (toy_env []) (stdout ?p) = Some []"
    by (simp add: toy_env_def toy_decode_def)
  have out: "strip [] = []" by (simp add: strip_def)
  show ?thesis
    using clean_status_skips_everything [OF run rc dec out]
    by (simp add: toy_world_def toy_env_def toy_decode_def)
qed

subsection \<open>Push follows a successful commit, and only that\<close>

text \<open>
  C3. In a run of the one-shot mode that found changes, the command \<^verbatim>\<open>git push\<close> is
  run once when staging and committing succeeded and not at all when either failed, or
  raised. When it is run it is the last command of the run, whatever its exit status:
  nothing retries it and nothing undoes the commit, so the repository is the one the
  push left.
\<close>

theorem push_iff_stage_commit_succeeded:
  assumes "get_git_status e w = (Inr status, w1)"
      and "truthy status"
      and "commit_changes e None w1 = (res, w2)"
  shows "count_list (execs (trace (snd (main_commit_only e w)))) ''git push''
           = count_list (execs (trace w)) ''git push'' + (if res = Inr True then 1 else 0)
         \<and> (res = Inr True \<longrightarrow>
              execs (trace (snd (main_commit_only e w))) = execs (trace w2) @ [''git push'']
              \<and> repo (snd (main_commit_only e w)) = snd (shell e ''git push'' (repo w2)))
         \<and> (res = Inr False \<longrightarrow> main_commit_only e w = (None, logger ERROR Failed_to_commit w2))
         \<and> (raised res \<noteq> None \<longrightarrow> main_commit_only e w = (raised res, w2))"
proof -
  have before: "count_list (execs (trace w2)) ''git push'' = count_list (execs (trace w)) ''git push''"
    using pushes_commit_changes [of e None w1] pushes_get_git_status [of e w] assms by simp
  show ?thesis
  proof (cases res)
    case (Inl err)
    then have "main_commit_only e w = (Some err, w2)"
      using assms by (simp add: main_commit_only_def)
    then show ?thesis
      using Inl before by (simp add: raised_def)
  next
    case (Inr committed)
    show ?thesis
    proof (cases committed)
      case True
      obtain pr w3 where push: "push_changes e w2 = (pr, w3)"
        by (cases "push_changes e w2")
      have main: "main_commit_only e w = (raised pr, w3)"
        using assms Inr True push by (simp add: main_commit_only_def)
      have "execs (trace w3) = execs (trace w2) @ [''git push'']"
        and "repo w3 = snd (shell e ''git push'' (repo w2))"
        using execs_push_changes [of e w2] repo_push_changes [of e w2] push by simp_all
      then show ?thesis
        using main before Inr True by (simp add: raised_def)
    next
      case False
      then have "main_commit_only e w = (None, logger ERROR Failed_to_commit w2)"
        using assms Inr by (simp add: main_commit_only_def)
      then show ?thesis
        using before Inr False by (simp add: logger_def execs_append raised_def)
    qed
  qed
qed

theorem push_iff_stage_commit_succeeded_witness:
  "truthy (Some ''M docs/index.md'')
   \<and> count_list (execs (trace (snd (main_commit_only (toy_env [''git push'']) (toy_world 2)))))
        ''git push'' = 1
   \<and> repo (snd (main_commit_only (toy_env [''git push'']) (toy_world 2)))
        = \<lparr>pending = 0, unpushed = 1\<rparr>"
proof -
  let ?e = "toy_env [''git push'']"
  let ?w1 = "(toy_world 2)\<lparr>trace := [Exec ''git status --porcelain'']\<rparr>"
  let ?m = "''Auto-commit: Update documentation at 2024-05-17 09:30:00''"
  let ?w2 = "\<lparr>repo = \<lparr>pending = 0, unpushed = 1\<rparr>, clock = 0,
             trace = [Exec ''git status --porcelain'', Exec ''git add --all'',
                      Exec (commit_command ?m), Log INFO (Changes_committed ?m)]\<rparr>"
  have st: "get_git_status ?e (toy_world 2) = (Inr (Some ''M docs/index.md''), ?w1)"
    by (simp add: get_git_status_def run_command_def toy_env_def toy_git_def toy_world_def
                  toy_decode_def strip_def isspace_def)
  have tr: "truthy (Some ''M docs/index.md'')"
    by (simp add: truthy_def)
  have cm: "commit_changes ?e None ?w1 = (Inr True, ?w2)"
    by (simp add: commit_changes_def commit_command_def default_message_def run_command_def
                  logger_def toy_env_def toy_git_def toy_world_def toy_decode_def Let_def)
  show ?thesis
    using push_iff_stage_commit_succeeded [OF st tr cm] tr
    by (simp add: toy_env_def toy_git_def toy_world_def commit_command_not_push)
qed

subsection \<open>When staging and committing fail\<close>

text \<open>
  C4, as the code has it. When the captured output of the commands decodes,
  \<^verbatim>\<open>commit_changes\<close> returns \<^verbatim>\<open>False\<close> exactly when \<^verbatim>\<open>git add --all\<close> or the
  \<^verbatim>\<open>git commit\<close> that follows it exits with a non-zero status, and \<^verbatim>\<open>True\<close> otherwise;
  it raises nothing. In each failure the command and its captured error stream are
  logged at level ERROR, \<^verbatim>\<open>commit_changes\<close> runs no push, and the one-shot mode that
  called it logs the failure and runs nothing more. Staging that exits with status 0 is
  a success whatever it printed.
\<close>

theorem stage_commit_fails_iff_nonzero_exit:
  assumes "message = (case message_arg of None \<Rightarrow> default_message e w | Some m \<Rightarrow> m)"
      and "shell e ''git add --all'' (repo w) = (p1, r1)"
      and "shell e (commit_command message) r1 = (p2, r2)"
      and "decode e (stdout p1) = Some out1"
      and "decode e (stderr p1) = Some err1"
      and "returncode p1 = 0 \<Longrightarrow> decode e (stdout p2) = Some out2 \<and> decode e (stderr p2) = Some err2"
  shows "(fst (commit_changes e message_arg w) = Inr False)
           = (returncode p1 \<noteq> 0 \<or> returncode p2 \<noteq> 0)
         \<and> (fst (commit_changes e message_arg w) = Inr True)
           = (returncode p1 = 0 \<and> returncode p2 = 0)
         \<and> (returncode p1 \<noteq> 0 \<longrightarrow>
              snd (commit_changes e message_arg w) =
                w\<lparr>repo := r1,
                  trace := trace w @ [Exec ''git add --all'',
                                      Log ERROR (Command_failed ''git add --all''),
                                      Log ERROR (Error_stream err1)]\<rparr>)
         \<and> (returncode p1 = 0 \<and> returncode p2 \<noteq> 0 \<longrightarrow>
              snd (commit_changes e message_arg w) =
                w\<lparr>repo := r2,
                  trace := trace w @ [Exec ''git add --all'', Exec (commit_command message),
                                      Log ERROR (Command_failed (commit_command message)),
                                      Log ERROR (Error_stream err2)]\<rparr>)
         \<and> (returncode p1 = 0 \<and> returncode p2 = 0 \<longrightarrow>
              snd (commit_changes e message_arg w) =
                w\<lparr>repo := r2,
                  trace := trace w @ [Exec ''git add --all'', Exec (commit_command message),
                                      Log INFO (Changes_committed message)]\<rparr>)
         \<and> ''git push'' \<notin> set (execs (drop (length (trace w))
                                        (trace (snd (commit_changes e message_arg w)))))
         \<and> (get_git_status e w0 = (Inr status, w) \<and> truthy status \<and> message_arg = None
                \<and> fst (commit_changes e message_arg w) = Inr False \<longrightarrow>
              main_commit_only e w0 =
                (None, logger ERROR Failed_to_commit (snd (commit_changes e message_arg w))))"
proof -
  have caller: "get_git_status e w0 = (Inr status, w) \<and> truthy status \<and> message_arg = None
                  \<and> fst (commit_changes e message_arg w) = Inr False \<longrightarrow>
                main_commit_only e w0 =
                  (None, logger ERROR Failed_to_commit (snd (commit_changes e message_arg w)))"
  proof (cases "commit_changes e None w")
    case (Pair res w2)
    then show ?thesis
      by (auto simp: main_commit_only_def)
  qed
  have step: "(fst (commit_changes e message_arg w) = Inr False)
           = (returncode p1 \<noteq> 0 \<or> returncode p2 \<noteq> 0)
         \<and> (fst (commit_changes e message_arg w) = Inr True)
           = (returncode p1 = 0 \<and> returncode p2 = 0)
         \<and> (returncode p1 \<noteq> 0 \<longrightarrow>
              snd (commit_changes e message_arg w) =
                w\<lparr>repo := r1,
                  trace := trace w @ [Exec ''git add --all'',
                                      Log ERROR (Command_failed ''git add --all''),
                                      Log ERROR (Error_stream err1)]\<rparr>)
         \<and> (returncode p1 = 0 \<and> returncode p2 \<noteq> 0 \<longrightarrow>
              snd (commit_changes e message_arg w) =
                w\<lparr>repo := r2,
                  trace := trace w @ [Exec ''git add --all'', Exec (commit_command message),
                                      Log ERROR (Command_failed (commit_command message)),
                                      Log ERROR (Error_stream err2)]\<rparr>)
         \<and> (returncode p1 = 0 \<and> returncode p2 = 0 \<longrightarrow>
              snd (commit_changes e message_arg w) =
                w\<lparr>repo := r2,
                  trace := trace w @ [Exec ''git add --all'', Exec (commit_command message),
                                      Log INFO (Changes_committed message)]\<rparr>)
         \<and> ''git push'' \<notin> set (execs (drop (length (trace w))
                                        (trace (snd (commit_changes e message_arg w)))))"
  proof (cases "returncode p1 = 0")
    case False
    then have "run_command e ''git add --all'' w =
                 (Inr None, w\<lparr>repo := r1,
                              trace := trace w @ [Exec ''git add --all'',
                                                  Log ERROR (Command_failed ''git add --all''),
                                                  Log ERROR (Error_stream err1)]\<rparr>)"
      using assms(2,4,5) by (simp add: run_command_failed)
    then show ?thesis
      using False by (simp add: commit_changes_def Let_def)
  next
    case True
    let ?w1 = "w\<lparr>repo := r1, trace := trace w @ [Exec ''git add --all'']\<rparr>"
    have stage: "run_command e ''git add --all'' w = (Inr (Some (strip out1)), ?w1)"
      using assms(2,4,5) True by (simp add: run_command_ok)
    have sh2: "shell e (commit_command message) (repo ?w1) = (p2, r2)"
      using assms(3) by simp
    have dec2: "decode e (stdout p2) = Some out2" "decode e (stderr p2) = Some err2"
      using assms(6) True by simp_all
    show ?thesis
    proof (cases "returncode p2 = 0")
      case True
      have "run_command e (commit_command message) ?w1 =
              (Inr (Some (strip out2)),
               ?w1\<lparr>repo := r2, trace := trace ?w1 @ [Exec (commit_command message)]\<rparr>)"
        using sh2 dec2 True by (rule run_command_ok)
      then show ?thesis
        using stage True \<open>returncode p1 = 0\<close> assms(1) commit_command_not_push [of message]
        by (simp add: commit_changes_def logger_def Let_def)
    next
      case False
      have "run_command e (commit_command message) ?w1 =
              (Inr None,
               ?w1\<lparr>repo := r2,
                    trace := trace ?w1 @ [Exec (commit_command message),
                                          Log ERROR (Command_failed (commit_command message)),
                                          Log ERROR (Error_stream err2)]\<rparr>)"
        using sh2 dec2 False by (rule run_command_failed)
      then show ?thesis
        using stage False \<open>returncode p1 = 0\<close> assms(1) commit_command_not_push [of message]
        by (simp add: commit_changes_def Let_def)
    qed
  qed
  show ?thesis
    using step caller by blast
qed

theorem stage_commit_fails_iff_nonzero_exit_witness:
  "returncode (fst (shell (toy_env [''git commit'']) ''git add --all'' (repo (toy_world 2)))) = 0
   \<and> returncode (fst (shell (toy_env [''git commit''])
                         (commit_command ''Auto-commit: Update documentation at 2024-05-17 09:30:00'')
                         (repo (toy_world 2)))) \<noteq> 0
   \<and> fst (commit_changes (toy_env [''git commit'']) None
             ((toy_world 2)\<lparr>trace := [Exec ''git status --porcelain'']\<rparr>)) = Inr False
   \<and> errors_logged (trace (snd (main_commit_only (toy_env [''git commit'']) (toy_world 2)))) =
       [Command_failed (commit_command ''Auto-commit: Update documentation at 2024-05-17 09:30:00''),
        Error_stream ''fatal: unable to access the repository'',
        Failed_to_commit]
   \<and> execs (trace (snd (main_commit_only (toy_env [''git commit'']) (toy_world 2)))) =
       [''git status --porcelain'', ''git add --all'',
        commit_command ''Auto-commit: Update documentation at 2024-05-17 09:30:00'']"
proof -
  let ?e = "toy_env [''git commit'']"
  let ?w = "(toy_world 2)\<lparr>trace := [Exec ''git status --porcelain'']\<rparr>"
  let ?m = "''Auto-commit: Update documentation at 2024-05-17 09:30:00''"
  let ?p1 = "\<lparr>returncode = 0, stdout = [], stderr = []\<rparr>"
  let ?p2 = "\<lparr>returncode = 128, stdout = [], stderr = ''fatal: unable to access the repository''\<rparr>"
  have msg: "?m = (case None of None \<Rightarrow> default_message ?e ?w | Some m \<Rightarrow> m)"
    by (simp add: default_message_def toy_env_def)
  have add: "shell ?e ''git add --all'' (repo ?w) = (?p1, repo (toy_world 2))"
    by (simp add: toy_env_def toy_git_def toy_world_def)
  have com: "shell ?e (commit_command ?m) (repo (toy_world 2)) = (?p2, repo (toy_world 2))"
    by (simp add: toy_env_def toy_git_def toy_world_def commit_command_def)
  have d1: "decode ?e (stdout ?p1) = Some []"
    by (simp add: toy_env_def toy_decode_def)
  have d2: "decode ?e (stderr ?p1) = Some []"
    by (simp add: toy_env_def toy_decode_def)
  have d3: "returncode ?p1 = 0 \<Longrightarrow>
              decode ?e (stdout ?p2) = Some []
              \<and> decode ?e (stderr ?p2) = Some ''fatal: unable to access the repository''"
    by (simp add: toy_env_def toy_decode_def)
  have st: "get_git_status ?e (toy_world 2) = (Inr (Some ''M docs/index.md''), ?w)"
    by (simp add: get_git_status_def run_command_def toy_env_def toy_git_def toy_world_def
                  toy_decode_def strip_def isspace_def)
  have tr: "truthy (Some ''M docs/index.md'')"
    by (simp add: truthy_def)
  show ?thesis
    using stage_commit_fails_iff_nonzero_exit
            [OF msg add com d1 d2 d3, of "toy_world 2" "Some ''M docs/index.md''"] st tr add com
    by (simp add: logger_def errors_logged_append execs_append toy_world_def)
qed

text \<open>
  C4 as the specification words it counts staging that produces no output as a failure,
  and has every non-zero exit status returned as a failure, logged and not raised.
  \<^verbatim>\<open>commit_changes\<close> tests \<^verbatim>\<open>stage_result is None\<close>, and the empty string is not
  \<^verbatim>\<open>None\<close>: in the first run staging prints nothing, exits with status 0, and the step
  succeeds. In the second run staging exits with status 128 and an error stream that
  does not decode: \<^verbatim>\<open>run_command\<close> catches \<^verbatim>\<open>CalledProcessError\<close> only, so the step
  raises \<^verbatim>\<open>UnicodeDecodeError\<close>, returns nothing and logs nothing.
\<close>

theorem stage_commit_counterexample:
  "stdout (fst (shell (toy_env []) ''git add --all'' (repo (toy_world 2)))) = []
   \<and> returncode (fst (shell (toy_env []) ''git add --all'' (repo (toy_world 2)))) = 0
   \<and> fst (commit_changes (toy_env []) None (toy_world 2)) = Inr True
   \<and> returncode (fst (shell (garbled_env [''git add'']) ''git add --all'' (repo (toy_world 2)))) = 128
   \<and> commit_changes (garbled_env [''git add'']) None (toy_world 2) =
       (Inl UnicodeDecodeError, (toy_world 2)\<lparr>trace := [Exec ''git add --all'']\<rparr>)"
  by (simp add: commit_changes_def commit_command_def default_message_def run_command_def
                logger_def toy_env_def garbled_env_def toy_git_def garbled_git_def toy_world_def
                toy_decode_def Let_def)

subsection \<open>A status query that fails\<close>

text \<open>
  C9, as the code has it. When the status query exits with a non-zero status and its
  output decodes, the one-shot mode and a round of the periodic loop run no staging, no
  commit and no push, and they end with the record they log for a clean repository; the
  failure itself is reported, for before that record \<^verbatim>\<open>run_command\<close> has logged the
  failed command and its error stream at level ERROR. When the status query raises,
  which it does when its output does not decode, the exception is not caught: the run
  ends with it, having run the status query only and logged nothing.
\<close>

theorem failed_status_logged_then_treated_as_clean:
  assumes "shell e ''git status --porcelain'' (repo w) = (p, r)"
  shows "(returncode p \<noteq> 0 \<and> decode e (stdout p) = Some out \<and> decode e (stderr p) = Some err \<longrightarrow>
            main_commit_only e w =
              (None,
               w\<lparr>repo := r,
                 trace := trace w @ [Exec ''git status --porcelain'',
                                     Log ERROR (Command_failed ''git status --porcelain''),
                                     Log ERROR (Error_stream err),
                                     Log INFO No_changes_to_commit]\<rparr>)
            \<and> auto_commit_check e w =
              (None,
               w\<lparr>repo := r,
                 trace := trace w @ [Exec ''git status --porcelain'',
                                     Log ERROR (Command_failed ''git status --porcelain''),
                                     Log ERROR (Error_stream err),
                                     Log INFO No_changes_detected]\<rparr>))
         \<and> (decode e (stdout p) = None \<or> decode e (stderr p) = None \<longrightarrow>
            main_commit_only e w =
              (Some UnicodeDecodeError,
               w\<lparr>repo := r, trace := trace w @ [Exec ''git status --porcelain'']\<rparr>)
            \<and> auto_commit_check e w =
              (Some UnicodeDecodeError,
               w\<lparr>repo := r, trace := trace w @ [Exec ''git status --porcelain'']\<rparr>))
         \<and> (returncode p \<noteq> 0 \<or> decode e (stdout p) = None \<or> decode e (stderr p) = None \<longrightarrow>
            execs (trace (snd (main_commit_only e w))) = execs (trace w) @ [''git status --porcelain'']
            \<and> execs (trace (snd (auto_commit_check e w)))
                = execs (trace w) @ [''git status --porcelain''])"
proof -
  have failed: "main_commit_only e w =
              (None,
               w\<lparr>repo := r,
                 trace := trace w @ [Exec ''git status --porcelain'',
                                     Log ERROR (Command_failed ''git status --porcelain''),
                                     Log ERROR (Error_stream err),
                                     Log INFO No_changes_to_commit]\<rparr>)
            \<and> auto_commit_check e w =
              (None,
               w\<lparr>repo := r,
                 trace := trace w @ [Exec ''git status --porcelain'',
                                     Log ERROR (Command_failed ''git status --porcelain''),
                                     Log ERROR (Error_stream err),
                                     Log INFO No_changes_detected]\<rparr>)"
    if "returncode p \<noteq> 0" "decode e (stdout p) = Some out" "decode e (stderr p) = Some err"
    using run_command_failed [OF assms that(2) that(3) that(1)]
    by (simp add: main_commit_only_def auto_commit_check_def get_git_status_def truthy_def
                  logger_def)
  have raises: "main_commit_only e w =
              (Some UnicodeDecodeError,
               w\<lparr>repo := r, trace := trace w @ [Exec ''git status --porcelain'']\<rparr>)
            \<and> auto_commit_check e w =
              (Some UnicodeDecodeError,
               w\<lparr>repo := r, trace := trace w @ [Exec ''git status --porcelain'']\<rparr>)"
    if "decode e (stdout p) = None \<or> decode e (stderr p) = None"
    using run_command_undecodable [OF assms that]
    by (simp add: main_commit_only_def auto_commit_check_def get_git_status_def)
  have only_status:
    "execs (trace (snd (main_commit_only e w))) = execs (trace w) @ [''git status --porcelain'']
     \<and> execs (trace (snd (auto_commit_check e w))) = execs (trace w) @ [''git status --porcelain'']"
    if "returncode p \<noteq> 0 \<or> decode e (stdout p) = None \<or> decode e (stderr p) = None"
  proof (cases "decode e (stdout p) = None \<or> decode e (stderr p) = None")
    case True
    then show ?thesis
      using raises by (simp add: execs_append)
  next
    case False
    then obtain out' err' where d: "decode e (stdout p) = Some out'" "decode e (stderr p) = Some err'"
      by auto
    have rc: "returncode p \<noteq> 0" using that False by blast
    show ?thesis
      using run_command_failed [OF assms d rc]
      by (simp add: main_commit_only_def auto_commit_check_def get_git_status_def truthy_def
                    logger_def execs_append)
  qed
  show ?thesis
    using failed raises only_status by blast
qed

theorem failed_status_logged_then_treated_as_clean_witness:
  "returncode (fst (shell (toy_env [''git status'']) ''git status --porcelain'' (repo (toy_world 2)))) \<noteq> 0
   \<and> main_commit_only (toy_env [''git status'']) (toy_world 2) =
       (None,
        (toy_world 2)\<lparr>trace := [Exec ''git status --porcelain'',
                                 Log ERROR (Command_failed ''git status --porcelain''),
                                 Log ERROR (Error_stream ''fatal: unable to access the repository''),
                                 Log INFO No_changes_to_commit]\<rparr>)
   \<and> decode (garbled_env [''git status''])
        (stderr (fst (shell (garbled_env [''git status'']) ''git status --porcelain''
                       (repo (toy_world 2))))) = None
   \<and> main_commit_only (garbled_env [''git status'']) (toy_world 2) =
       (Some UnicodeDecodeError, (toy_world 2)\<lparr>trace := [Exec ''git status --porcelain'']\<rparr>)"
proof -
  let ?p = "\<lparr>returncode = 128, stdout = [], stderr = ''fatal: unable to access the repository''\<rparr>"
  let ?q = "\<lparr>returncode = 128, stdout = [], stderr = ''fatal: '' @ [CHR 0xFF]\<rparr>"
  have run: "shell (toy_env [''git status'']) ''git status --porcelain'' (repo (toy_world 2))
               = (?p, repo (toy_world 2))"
    by (simp add: toy_env_def toy_git_def toy_world_def)
  have hyp: "returncode ?p \<noteq> 0 \<and> decode (toy_env [''git status'']) (stdout ?p) = Some []
             \<and> decode (toy_env [''git status'']) (stderr ?p)
                 = Some ''fatal: unable to access the repository''"
    by (simp add: toy_env_def toy_decode_def)
  have run': "shell (garbled_env [''git status'']) ''git status --porcelain'' (repo (toy_world 2))
               = (?q, repo (toy_world 2))"
    by (simp add: garbled_env_def garbled_git_def toy_world_def)
  have hyp': "decode (garbled_env [''git status'']) (stderr ?q) = None"
    by (simp add: garbled_env_def toy_decode_def)
  show ?thesis
    using failed_status_logged_then_treated_as_clean
            [OF run, of "[]" "''fatal: unable to access the repository''"]
          failed_status_logged_then_treated_as_clean [OF run', of "[]" "[]"]
          hyp hyp' run run'
    by (simp add: toy_world_def)
qed

text \<open>
  C9 as worded has the failed status query report no error that tells it from a clean
  repository, and has a status query that raises treated as a clean repository too. The
  records at level ERROR tell a failed query from a clean repository: it leaves two of
  them, a clean repository none. A status query that raises ends the run with the
  exception and without the record of a clean repository.
\<close>

theorem failed_status_counterexample:
  "errors_logged (trace (snd (main_commit_only (toy_env [''git status'']) (toy_world 0)))) =
     [Command_failed ''git status --porcelain'',
      Error_stream ''fatal: unable to access the repository'']
   \<and> errors_logged (trace (snd (main_commit_only (toy_env []) (toy_world 0)))) = []
   \<and> main_commit_only (garbled_env [''git status'']) (toy_world 0) =
       (Some UnicodeDecodeError, (toy_world 0)\<lparr>trace := [Exec ''git status --porcelain'']\<rparr>)
   \<and> main_commit_only (toy_env []) (toy_world 0) =
       (None, (toy_world 0)\<lparr>trace := [Exec ''git status --porcelain'',
                                         Log INFO No_changes_to_commit]\<rparr>)"
  by (simp add: main_commit_only_def get_git_status_def run_command_def truthy_def logger_def
                toy_env_def garbled_env_def toy_git_def garbled_git_def toy_world_def
                toy_decode_def strip_def Let_def)

subsection \<open>The path argument of the periodic loop\<close>

text \<open>Every function of the script only appends to the trace, and never reads it.\<close>

lemma logger_prefix: "logger l m (prefix_trace t w) = prefix_trace t (logger l m w)"
  by (simp add: logger_def prefix_trace_def)

lemma time_sleep_prefix:
  "time_sleep i (prefix_trace t w) = map_sum id (prefix_trace t) (time_sleep i w)"
  by (simp add: time_sleep_def prefix_trace_def)

lemma run_command_prefix:
  "run_command e c (prefix_trace t w) = apsnd (prefix_trace t) (run_command e c w)"
  by (simp add: run_command_def logger_def prefix_trace_def Let_def
           split: prod.splits option.splits)

lemma commit_changes_prefix:
  "commit_changes e m (prefix_trace t w) = apsnd (prefix_trace t) (commit_changes e m w)"
proof -
  let ?msg = "case m of None \<Rightarrow> default_message e w | Some m' \<Rightarrow> m'"
  have msg: "(case m of None \<Rightarrow> default_message e (prefix_trace t w) | Some m' \<Rightarrow> m') = ?msg"
    by (cases m) (simp_all add: default_message_def prefix_trace_def)
  obtain s1 w1 where s1: "run_command e ''git add --all'' w = (s1, w1)"
    by (cases "run_command e ''git add --all'' w")
  obtain s2 w2 where s2: "run_command e (commit_command ?msg) w1 = (s2, w2)"
    by (cases "run_command e (commit_command ?msg) w1")
  show ?thesis
  proof (cases s1)
    case (Inl err)
    then show ?thesis
      by (simp add: commit_changes_def msg run_command_prefix s1 Let_def)
  next
    case stage: (Inr o1)
    show ?thesis
    proof (cases o1)
      case None
      then show ?thesis
        by (simp add: commit_changes_def msg run_command_prefix s1 stage Let_def)
    next
      case (Some x)
      show ?thesis
      proof (cases s2)
        case (Inl err)
        then show ?thesis
          by (simp add: commit_changes_def msg run_command_prefix s1 s2 stage Some Let_def)
      next
        case (Inr o2)
        then show ?thesis
          by (cases o2)
             (simp_all add: commit_changes_def msg run_command_prefix s1 s2 stage Some
                            logger_prefix Let_def)
      qed
    qed
  qed
qed

lemma push_changes_prefix:
  "push_changes e (prefix_trace t w) = apsnd (prefix_trace t) (push_changes e w)"
proof -
  obtain s1 w1 where s1: "run_command e ''git push'' w = (s1, w1)"
    by (cases "run_command e ''git push'' w")
  show ?thesis
  proof (cases s1)
    case (Inl err)
    then show ?thesis
      by (simp add: push_changes_def run_command_prefix s1)
  next
    case (Inr o1)
    then show ?thesis
      by (cases o1) (simp_all add: push_changes_def run_command_prefix s1 logger_prefix)
  qed
qed

lemma auto_commit_check_prefix:
  "auto_commit_check e (prefix_trace t w) = apsnd (prefix_trace t) (auto_commit_check e w)"
proof -
  obtain st w1 where st: "run_command e ''git status --porcelain'' w = (st, w1)"
    by (cases "run_command e ''git status --porcelain'' w")
  obtain cm w2 where cm: "commit_changes e None (logger INFO Changes_detected w1) = (cm, w2)"
    by (cases "commit_changes e None (logger INFO Changes_detected w1)")
  obtain pu w3 where pu: "push_changes e w2 = (pu, w3)"
    by (cases "push_changes e w2")
  show ?thesis
  proof (cases st)
    case (Inl err)
    then show ?thesis
      by (simp add: auto_commit_check_def get_git_status_def run_command_prefix st)
  next
    case status: (Inr status)
    show ?thesis
    proof (cases "truthy status")
      case False
      then show ?thesis
        by (simp add: auto_commit_check_def get_git_status_def run_command_prefix st status
                      logger_prefix)
    next
      case True
      show ?thesis
      proof (cases cm)
        case (Inl err)
        then show ?thesis
          using True
          by (simp add: auto_commit_check_def get_git_status_def run_command_prefix st status
                        logger_prefix commit_changes_prefix cm)
      next
        case (Inr committed)
        then show ?thesis
          using True
          by (simp add: auto_commit_check_def get_git_status_def run_command_prefix st status
                        logger_prefix commit_changes_prefix cm push_changes_prefix pu)
      qed
    qed
  qed
qed

lemma auto_commit_loop_prefix:
  "auto_commit_loop e i n (prefix_trace t w) = apsnd (prefix_trace t) (auto_commit_loop e i n w)"
proof (induction n arbitrary: w)
  case 0
  show ?case by simp
next
  case (Suc n)
  obtain exc w1 where body: "auto_commit_check e w = (exc, w1)"
    by (cases "auto_commit_check e w")
  show ?case
  proof (cases exc)
    case (Some err)
    then show ?thesis
      by (simp add: auto_commit_check_prefix body)
  next
    case None
    show ?thesis
    proof (cases "time_sleep i w1")
      case (Inl err)
      then show ?thesis
        by (simp add: auto_commit_check_prefix body None time_sleep_prefix)
    next
      case (Inr w2)
      then show ?thesis
        by (simp add: auto_commit_check_prefix body None time_sleep_prefix Suc.IH)
    qed
  qed
qed

lemma auto_commit_changes_split:
  "auto_commit_changes e p i n w =
     apsnd (prefix_trace (trace w @ [Log INFO (Monitoring p i)]))
           (auto_commit_loop e i n (w\<lparr>trace := []\<rparr>))"
proof -
  have "logger INFO (Monitoring p i) w
          = prefix_trace (trace w @ [Log INFO (Monitoring p i)]) (w\<lparr>trace := []\<rparr>)"
    by (simp add: logger_def prefix_trace_def)
  then show ?thesis
    by (simp add: auto_commit_changes_def auto_commit_loop_prefix)
qed

text \<open>
  C10. Two runs of \<^verbatim>\<open>auto_commit_changes\<close>, for any number of rounds, that differ only in
  \<^verbatim>\<open>path_to_watch\<close> end the same way, run the same commands in the same order, and
  leave the same repository and clock. Their traces differ in one record only, the
  first, which names the path.
\<close>

theorem path_to_watch_only_logged:
  "fst (auto_commit_changes e p1 i n w) = fst (auto_commit_changes e p2 i n w)
   \<and> execs (trace (snd (auto_commit_changes e p1 i n w)))
       = execs (trace (snd (auto_commit_changes e p2 i n w)))
   \<and> repo (snd (auto_commit_changes e p1 i n w)) = repo (snd (auto_commit_changes e p2 i n w))
   \<and> clock (snd (auto_commit_changes e p1 i n w)) = clock (snd (auto_commit_changes e p2 i n w))
   \<and> take (Suc (length (trace w))) (trace (snd (auto_commit_changes e p1 i n w)))
       = trace w @ [Log INFO (Monitoring p1 i)]
   \<and> drop (Suc (length (trace w))) (trace (snd (auto_commit_changes e p1 i n w)))
       = drop (Suc (length (trace w))) (trace (snd (auto_commit_changes e p2 i n w)))"
  by (simp add: auto_commit_changes_split prefix_trace_def execs_append)

theorem path_to_watch_only_logged_witness:
  "execs (trace (snd (auto_commit_changes (toy_env []) ''docs'' 300 2 (toy_world 2))))
     = execs (trace (snd (auto_commit_changes (toy_env []) ''notes'' 300 2 (toy_world 2))))
   \<and> repo (snd (auto_commit_changes (toy_env []) ''docs'' 300 2 (toy_world 2)))
     = repo (snd (auto_commit_changes (toy_env []) ''notes'' 300 2 (toy_world 2)))
   \<and> take (Suc 0) (trace (snd (auto_commit_changes (toy_env []) ''docs'' 300 2 (toy_world 2))))
     = [Log INFO (Monitoring ''docs'' 300)]"
  using path_to_watch_only_logged [of "toy_env []" "''docs''" 300 2 "toy_world 2" "''notes''"]
  by (simp add: toy_world_def)

section \<open>Properties of \<^verbatim>\<open>watch_changes.py\<close>\<close>

subsection \<open>What the timer loop leaves behind\<close>

text \<open>
  The equation of \<open>start_timer\<close> rewrites a call into a call, so it is used by hand.
  The loop sleeps \<open>k\<close> times, where \<open>k\<close> is the first tick at which the debounce time has
  passed since the last change, then logs, runs the commit script and clears the flag.
\<close>

declare start_timer.simps [simp del]

lemma firings_append: "firings (xs @ ys) = firings xs @ firings ys"
  by (induction xs rule: firings.induct) simp_all

lemma sleeps_append: "sleeps (xs @ ys) = sleeps xs + sleeps ys"
  by (induction xs rule: sleeps.induct) simp_all

lemma now_sleeps: "now ((sleep_1 ^^ k) w) = now w + int k * 1000000"
  by (induction k) (simp_all add: sleep_1_def)

lemma wtrace_sleeps: "wtrace ((sleep_1 ^^ k) w) = wtrace w @ replicate k (WSleep 1)"
  by (induction k) (simp_all add: sleep_1_def replicate_append_same)

lemma trigger_commit_eq:
  "trigger_commit script w =
     \<lparr>now = now w + int (snd (script (now w))),
      wtrace = wtrace w @ [WLog INFO Triggering_auto_commit,
                           Commit_script (now w) (fst (script (now w))),
                           if fst (script (now w)) = 0 then WLog INFO Auto_commit_completed
                           else WLog ERROR (Auto_commit_failed (fst (script (now w))))]\<rparr>"
  by (cases "script (now w)") (simp add: trigger_commit_def wlogger_def)

lemma start_timer_handler_aux:
  "fst (start_timer script s) = (fst s)\<lparr>timer_running := False\<rparr>"
proof (induction script s rule: start_timer.induct)
  case (1 script h w)
  show ?case
  proof (cases "now w - last_modified h \<ge> debounce_time h * 1000000")
    case True
    then show ?thesis by (simp add: start_timer.simps [of script h w])
  next
    case False
    then show ?thesis
      using "1.IH" [of "now w - last_modified h"]
      by (simp add: start_timer.simps [of script h w])
  qed
qed

lemma start_timer_handler: "fst (start_timer script (h, w)) = h\<lparr>timer_running := False\<rparr>"
  using start_timer_handler_aux [of script "(h, w)"] by simp

lemma start_timer_world_aux:
  "\<exists>k. snd (start_timer script s) =
          trigger_commit script
            (wlogger INFO (Changes_settled (debounce_time (fst s))) ((sleep_1 ^^ k) (snd s)))
       \<and> now (snd s) + int k * 1000000 - last_modified (fst s)
             \<ge> debounce_time (fst s) * 1000000
       \<and> (\<forall>j<k. now (snd s) + int j * 1000000 - last_modified (fst s)
                    < debounce_time (fst s) * 1000000)"
proof (induction script s rule: start_timer.induct)
  case (1 script h w)
  show ?case
  proof (cases "now w - last_modified h \<ge> debounce_time h * 1000000")
    case True
    then have "snd (start_timer script (h, w)) =
                 trigger_commit script
                   (wlogger INFO (Changes_settled (debounce_time h)) ((sleep_1 ^^ 0) w))"
      by (simp add: start_timer.simps [of script h w])
    with True show ?thesis
      by (intro exI [of _ 0]) simp
  next
    case False
    from "1.IH" [of "now w - last_modified h"] False
    obtain k where k:
      "snd (start_timer script (h, sleep_1 w)) =
         trigger_commit script
           (wlogger INFO (Changes_settled (debounce_time h)) ((sleep_1 ^^ k) (sleep_1 w)))"
      "now (sleep_1 w) + int k * 1000000 - last_modified h \<ge> debounce_time h * 1000000"
      "\<forall>j<k. now (sleep_1 w) + int j * 1000000 - last_modified h < debounce_time h * 1000000"
      by auto
    have eq: "start_timer script (h, w) = start_timer script (h, sleep_1 w)"
      using False by (simp add: start_timer.simps [of script h w])
    have a: "snd (start_timer script (h, w)) =
               trigger_commit script
                 (wlogger INFO (Changes_settled (debounce_time h)) ((sleep_1 ^^ Suc k) w))"
      using k(1) eq by (simp add: funpow_swap1)
    have b: "now w + int (Suc k) * 1000000 - last_modified h \<ge> debounce_time h * 1000000"
      using k(2) by (simp add: sleep_1_def)
    have c: "\<forall>j<Suc k. now w + int j * 1000000 - last_modified h < debounce_time h * 1000000"
    proof (intro allI impI)
      fix j assume j: "j < Suc k"
      show "now w + int j * 1000000 - last_modified h < debounce_time h * 1000000"
      proof (cases j)
        case 0
        then show ?thesis using False by simp
      next
        case (Suc j')
        then have "j' < k" using j by simp
        then have "now (sleep_1 w) + int j' * 1000000 - last_modified h
                     < debounce_time h * 1000000"
          using k(3) by blast
        then show ?thesis using Suc by (simp add: sleep_1_def)
      qed
    qed
    show ?thesis
      unfolding fst_conv snd_conv using a b c by blast
  qed
qed


lemma start_timer_world:
  "\<exists>k. snd (start_timer script (h, w)) =
          trigger_commit script
            (wlogger INFO (Changes_settled (debounce_time h)) ((sleep_1 ^^ k) w))
       \<and> now w + int k * 1000000 - last_modified h \<ge> debounce_time h * 1000000
       \<and> (\<forall>j<k. now w + int j * 1000000 - last_modified h < debounce_time h * 1000000)"
  using start_timer_world_aux [of script "(h, w)"] by simp

lemma start_timer_fires:
  "\<exists>k. firings (wtrace (snd (start_timer script (h, w))))
            = firings (wtrace w) @ [now w + int k * 1000000]
       \<and> sleeps (wtrace (snd (start_timer script (h, w)))) = sleeps (wtrace w) + k
       \<and> take (length (wtrace w)) (wtrace (snd (start_timer script (h, w)))) = wtrace w
       \<and> last (wtrace (snd (start_timer script (h, w)))) =
            (if fst (script (now w + int k * 1000000)) = 0 then WLog INFO Auto_commit_completed
             else WLog ERROR (Auto_commit_failed (fst (script (now w + int k * 1000000)))))
       \<and> now w + int k * 1000000 - last_modified h \<ge> debounce_time h * 1000000
       \<and> (\<forall>j<k. now w + int j * 1000000 - last_modified h < debounce_time h * 1000000)"
proof -
  obtain k where k:
    "snd (start_timer script (h, w)) =
       trigger_commit script (wlogger INFO (Changes_settled (debounce_time h)) ((sleep_1 ^^ k) w))"
    "now w + int k * 1000000 - last_modified h \<ge> debounce_time h * 1000000"
    "\<forall>j<k. now w + int j * 1000000 - last_modified h < debounce_time h * 1000000"
    using start_timer_world [of script h w] by blast
  have sl: "sleeps (replicate k (WSleep 1)) = k" by (induction k) simp_all
  have fr: "firings (replicate k (WSleep 1)) = []" by (induction k) simp_all
  have "firings (wtrace (snd (start_timer script (h, w))))
            = firings (wtrace w) @ [now w + int k * 1000000]"
    by (simp add: k(1) trigger_commit_eq wlogger_def now_sleeps wtrace_sleeps firings_append fr)
  moreover have "sleeps (wtrace (snd (start_timer script (h, w)))) = sleeps (wtrace w) + k"
    by (simp add: k(1) trigger_commit_eq wlogger_def now_sleeps wtrace_sleeps sleeps_append sl)
  moreover have "take (length (wtrace w)) (wtrace (snd (start_timer script (h, w)))) = wtrace w"
    by (simp add: k(1) trigger_commit_eq wlogger_def wtrace_sleeps)
  moreover have "last (wtrace (snd (start_timer script (h, w)))) =
            (if fst (script (now w + int k * 1000000)) = 0 then WLog INFO Auto_commit_completed
             else WLog ERROR (Auto_commit_failed (fst (script (now w + int k * 1000000)))))"
    by (simp add: k(1) trigger_commit_eq wlogger_def now_sleeps wtrace_sleeps)
  ultimately show ?thesis
    using k(2) k(3) by blast
qed

subsection \<open>The three ways through the event handler\<close>

lemma on_any_event_ignored:
  "is_directory ev \<or> startswith (basename (src_path ev)) ''.'' \<Longrightarrow>
   on_any_event script ev (h, w) = (h, w)"
  by simp

lemma on_any_event_armed:
  "\<not> is_directory ev \<Longrightarrow> \<not> startswith (basename (src_path ev)) ''.'' \<Longrightarrow> timer_running h \<Longrightarrow>
   on_any_event script ev (h, w) =
     (h\<lparr>last_modified := now w\<rparr>,
      wlogger INFO (Change_detected (src_path ev) (event_type ev)) w)"
  by (simp add: wlogger_def Let_def)

lemma on_any_event_idle:
  "\<not> is_directory ev \<Longrightarrow> \<not> startswith (basename (src_path ev)) ''.'' \<Longrightarrow> \<not> timer_running h \<Longrightarrow>
   on_any_event script ev (h, w) =
     start_timer script
       (h\<lparr>last_modified := now w, timer_running := True\<rparr>,
        wlogger INFO (Change_detected (src_path ev) (event_type ev)) w)"
  by (simp add: wlogger_def Let_def)

declare on_any_event.simps [simp del]

subsection \<open>Directories and hidden files\<close>

text \<open>
  C5. An event for a directory, or for a path whose base name starts with a dot, leaves
  the handler and the world as they were: \<open>last_modified\<close> keeps its value, the timer is
  not armed, nothing is logged and nothing fires. Every other event, whatever its kind,
  is logged and sets \<open>last_modified\<close> to the time at which it is handled.
\<close>

theorem ignored_events_change_nothing:
  "(is_directory ev \<or> startswith (basename (src_path ev)) ''.'' \<longrightarrow>
      on_any_event script ev (h, w) = (h, w))
   \<and> (\<not> (is_directory ev \<or> startswith (basename (src_path ev)) ''.'') \<longrightarrow>
      last_modified (fst (on_any_event script ev (h, w))) = now w
      \<and> take (Suc (length (wtrace w))) (wtrace (snd (on_any_event script ev (h, w))))
          = wtrace w @ [WLog INFO (Change_detected (src_path ev) (event_type ev))])"
proof -
  let ?w1 = "wlogger INFO (Change_detected (src_path ev) (event_type ev)) w"
  let ?h1 = "h\<lparr>last_modified := now w, timer_running := True\<rparr>"
  have qualifying:
    "last_modified (fst (on_any_event script ev (h, w))) = now w
     \<and> take (Suc (length (wtrace w))) (wtrace (snd (on_any_event script ev (h, w))))
          = wtrace w @ [WLog INFO (Change_detected (src_path ev) (event_type ev))]"
    if q: "\<not> is_directory ev" "\<not> startswith (basename (src_path ev)) ''.''"
  proof (cases "timer_running h")
    case True
    then show ?thesis
      using q by (simp add: on_any_event_armed wlogger_def)
  next
    case False
    have pre: "take (length (wtrace ?w1)) (wtrace (snd (start_timer script (?h1, ?w1)))) = wtrace ?w1"
      using start_timer_fires [of script ?h1 ?w1] by blast
    have "length (wtrace ?w1) = Suc (length (wtrace w))"
      by (simp add: wlogger_def)
    then have "take (Suc (length (wtrace w))) (wtrace (snd (start_timer script (?h1, ?w1))))
                 = wtrace w @ [WLog INFO (Change_detected (src_path ev) (event_type ev))]"
      using pre by (simp add: wlogger_def)
    then show ?thesis
      using q False by (simp add: on_any_event_idle start_timer_handler)
  qed
  show ?thesis
    using qualifying on_any_event_ignored [of ev script h w] by blast
qed

theorem ignored_events_change_nothing_witness:
  "startswith (basename (src_path (modified ''docs/.index.md.swp''))) ''.''
   \<and> on_any_event script_ok (modified ''docs/.index.md.swp'')
        (ChangeHandler 5 watcher_world0, \<lparr>now = 2000000, wtrace = []\<rparr>)
      = (ChangeHandler 5 watcher_world0, \<lparr>now = 2000000, wtrace = []\<rparr>)
   \<and> is_directory \<lparr>event_type = ''created'', src_path = ''docs/guides'', is_directory = True\<rparr>
   \<and> on_any_event script_ok
        \<lparr>event_type = ''created'', src_path = ''docs/guides'', is_directory = True\<rparr>
        (ChangeHandler 5 watcher_world0, \<lparr>now = 2000000, wtrace = []\<rparr>)
      = (ChangeHandler 5 watcher_world0, \<lparr>now = 2000000, wtrace = []\<rparr>)
   \<and> \<not> (is_directory (modified ''docs/a.md'')
          \<or> startswith (basename (src_path (modified ''docs/a.md''))) ''.'')
   \<and> last_modified (fst (on_any_event script_ok (modified ''docs/a.md'')
        (ChangeHandler 5 watcher_world0, \<lparr>now = 2000000, wtrace = []\<rparr>))) = 2000000"
proof -
  let ?h = "ChangeHandler 5 watcher_world0"
  let ?w = "\<lparr>now = 2000000, wtrace = []\<rparr>"
  let ?dir = "\<lparr>event_type = ''created'', src_path = ''docs/guides'', is_directory = True\<rparr>"
  have hidden: "startswith (basename (src_path (modified ''docs/.index.md.swp''))) ''.''"
    by (simp add: modified_def basename_def startswith_def)
  have dir: "is_directory ?dir" by simp
  have plain: "\<not> (is_directory (modified ''docs/a.md'')
                   \<or> startswith (basename (src_path (modified ''docs/a.md''))) ''.'')"
    by (simp add: modified_def basename_def startswith_def)
  show ?thesis
    using ignored_events_change_nothing [of "modified ''docs/.index.md.swp''" script_ok ?h ?w]
          ignored_events_change_nothing [of ?dir script_ok ?h ?w]
          ignored_events_change_nothing [of "modified ''docs/a.md''" script_ok ?h ?w]
          hidden dir plain
    by simp
qed

subsection \<open>When the timer fires\<close>

text \<open>
  C7. With the timer armed and \<open>last_modified\<close> left alone, the loop polls once a second.
  At every tick before the one it fires at, less than the debounce time has passed
  since \<open>last_modified\<close>, and the loop sleeps on; it fires exactly once, at the first
  tick at which the debounce time has passed, which is less than one second after
  \<open>last_modified\<close> plus the debounce time when the loop started no later than that.
  It returns with \<open>timer_running\<close> clear.
\<close>

theorem timer_fires_at_first_tick_past_debounce:
  assumes "timer_running h"
      and "start_timer script (h, w) = (h', w')"
  shows "\<exists>k. firings (wtrace w') = firings (wtrace w) @ [now w + int k * 1000000]
           \<and> sleeps (wtrace w') = sleeps (wtrace w) + k
           \<and> (\<forall>j<k. now w + int j * 1000000 - last_modified h < debounce_time h * 1000000)
           \<and> last_modified h + debounce_time h * 1000000 \<le> now w + int k * 1000000
           \<and> (now w \<le> last_modified h + debounce_time h * 1000000 \<longrightarrow>
                now w + int k * 1000000 < last_modified h + debounce_time h * 1000000 + 1000000)
           \<and> \<not> timer_running h' \<and> last_modified h' = last_modified h"
proof -
  obtain k where k:
    "firings (wtrace w') = firings (wtrace w) @ [now w + int k * 1000000]"
    "sleeps (wtrace w') = sleeps (wtrace w) + k"
    "now w + int k * 1000000 - last_modified h \<ge> debounce_time h * 1000000"
    "\<forall>j<k. now w + int j * 1000000 - last_modified h < debounce_time h * 1000000"
    using start_timer_fires [of script h w] assms(2) by auto
  have h': "h' = h\<lparr>timer_running := False\<rparr>"
    using start_timer_handler [of script h w] assms(2) by simp
  have soon: "now w + int k * 1000000 < last_modified h + debounce_time h * 1000000 + 1000000"
    if early: "now w \<le> last_modified h + debounce_time h * 1000000"
  proof (cases k)
    case 0
    then show ?thesis using early by simp
  next
    case (Suc j)
    then have "now w + int j * 1000000 - last_modified h < debounce_time h * 1000000"
      using k(4) by blast
    then show ?thesis using Suc by simp
  qed
  show ?thesis
    using k h' soon by (intro exI [of _ k]) simp
qed

theorem timer_fires_at_first_tick_past_debounce_witness:
  "timer_running \<lparr>debounce_time = 5, last_modified = 0, timer_running = True\<rparr>
   \<and> firings (wtrace (snd (start_timer script_ok
         (\<lparr>debounce_time = 5, last_modified = 0, timer_running = True\<rparr>,
          \<lparr>now = 300000, wtrace = []\<rparr>)))) = [5300000]
   \<and> sleeps (wtrace (snd (start_timer script_ok
         (\<lparr>debounce_time = 5, last_modified = 0, timer_running = True\<rparr>,
          \<lparr>now = 300000, wtrace = []\<rparr>)))) = 5
   \<and> \<not> timer_running (fst (start_timer script_ok
         (\<lparr>debounce_time = 5, last_modified = 0, timer_running = True\<rparr>,
          \<lparr>now = 300000, wtrace = []\<rparr>)))"
proof -
  let ?h = "\<lparr>debounce_time = 5, last_modified = 0, timer_running = True\<rparr>"
  let ?w = "\<lparr>now = 300000, wtrace = []\<rparr>"
  let ?s = "start_timer script_ok (?h, ?w)"
  have armed: "timer_running ?h" by simp
  have run: "?s = (fst ?s, snd ?s)"
    by (rule surjective_pairing)
  from timer_fires_at_first_tick_past_debounce [OF armed run]
  obtain k where k:
    "firings (wtrace (snd ?s)) = firings (wtrace ?w) @ [now ?w + int k * 1000000]"
    "sleeps (wtrace (snd ?s)) = sleeps (wtrace ?w) + k"
    "last_modified ?h + debounce_time ?h * 1000000 \<le> now ?w + int k * 1000000"
    "now ?w \<le> last_modified ?h + debounce_time ?h * 1000000 \<longrightarrow>
       now ?w + int k * 1000000 < last_modified ?h + debounce_time ?h * 1000000 + 1000000"
    "\<not> timer_running (fst ?s)"
    by blast
  have lo: "(5000000::int) \<le> 300000 + int k * 1000000"
    using k(3) by simp
  have hi: "300000 + int k * 1000000 < (6000000::int)"
    using k(4) by simp
  have "k = 5"
    using lo hi by linarith
  then show ?thesis
    using k(1) k(2) k(5) by simp
qed

subsection \<open>After the commit script\<close>

text \<open>
  C8. The timer loop returns for every commit script, whatever the exit status of the
  child: a non-zero status is the caught \<^verbatim>\<open>CalledProcessError\<close> and is logged as an
  error, a zero status is logged as a success. Either way the loop returns with
  \<open>timer_running\<close> clear, having fired once, and the next qualifying event starts another
  wait, which fires once more.
\<close>

theorem idle_again_after_commit_whatever_its_outcome:
  assumes "start_timer script (h, w) = (h1, w1)"
      and "\<not> is_directory ev"
      and "\<not> startswith (basename (src_path ev)) ''.''"
      and "on_any_event script ev (h1, w1) = (h2, w2)"
  shows "\<not> timer_running h1
         \<and> length (firings (wtrace w1)) = Suc (length (firings (wtrace w)))
         \<and> last (wtrace w1) =
             (if fst (script (last (firings (wtrace w1)))) = 0 then WLog INFO Auto_commit_completed
              else WLog ERROR (Auto_commit_failed (fst (script (last (firings (wtrace w1)))))))
         \<and> \<not> timer_running h2
         \<and> length (firings (wtrace w2)) = Suc (Suc (length (firings (wtrace w))))"
proof -
  have h1: "h1 = h\<lparr>timer_running := False\<rparr>"
    using start_timer_handler [of script h w] assms(1) by simp
  obtain k where k:
    "firings (wtrace w1) = firings (wtrace w) @ [now w + int k * 1000000]"
    "last (wtrace w1) =
       (if fst (script (now w + int k * 1000000)) = 0 then WLog INFO Auto_commit_completed
        else WLog ERROR (Auto_commit_failed (fst (script (now w + int k * 1000000)))))"
    using start_timer_fires [of script h w] assms(1) by auto
  let ?w1' = "wlogger INFO (Change_detected (src_path ev) (event_type ev)) w1"
  let ?h1' = "h1\<lparr>last_modified := now w1, timer_running := True\<rparr>"
  have again: "on_any_event script ev (h1, w1) = start_timer script (?h1', ?w1')"
    using assms(2,3) h1 by (simp add: on_any_event_idle)
  have second: "start_timer script (?h1', ?w1') = (h2, w2)"
    using again assms(4) by simp
  have h2: "h2 = ?h1'\<lparr>timer_running := False\<rparr>"
    using start_timer_handler [of script ?h1' ?w1'] by (simp add: second)
  obtain k' where k':
    "firings (wtrace w2) = firings (wtrace ?w1') @ [now ?w1' + int k' * 1000000]"
    using start_timer_fires [of script ?h1' ?w1'] by (auto simp: second)
  have "firings (wtrace ?w1') = firings (wtrace w1)"
    by (simp add: wlogger_def firings_append)
  then show ?thesis
    using h1 h2 k k' by simp
qed

theorem idle_again_after_commit_whatever_its_outcome_witness:
  "\<not> timer_running (fst (start_timer script_failing
        (\<lparr>debounce_time = 2, last_modified = 0, timer_running = True\<rparr>, watcher_world0)))
   \<and> last (wtrace (snd (start_timer script_failing
        (\<lparr>debounce_time = 2, last_modified = 0, timer_running = True\<rparr>, watcher_world0))))
       = WLog ERROR (Auto_commit_failed 1)
   \<and> length (firings (wtrace (snd (on_any_event script_failing (modified ''docs/a.md'')
        (start_timer script_failing
          (\<lparr>debounce_time = 2, last_modified = 0, timer_running = True\<rparr>, watcher_world0)))))) = 2"
proof -
  let ?h = "\<lparr>debounce_time = 2, last_modified = 0, timer_running = True\<rparr>"
  let ?s = "start_timer script_failing (?h, watcher_world0)"
  have run: "?s = (fst ?s, snd ?s)" by simp
  have q1: "\<not> is_directory (modified ''docs/a.md'')"
    by (simp add: modified_def)
  have q2: "\<not> startswith (basename (src_path (modified ''docs/a.md''))) ''.''"
    by (simp add: modified_def basename_def startswith_def)
  have next_ev: "on_any_event script_failing (modified ''docs/a.md'') (fst ?s, snd ?s) =
                   (fst (on_any_event script_failing (modified ''docs/a.md'') ?s),
                    snd (on_any_event script_failing (modified ''docs/a.md'') ?s))"
    by simp
  show ?thesis
    using idle_again_after_commit_whatever_its_outcome [OF run q1 q2 next_ev]
    by (simp add: script_failing_def watcher_world0_def)
qed

subsection \<open>Events that arrive during a wait\<close>

text \<open>
  Handled from an idle handler, every qualifying event runs a whole wait and fires the
  commit before the handler returns; the handler is idle again for the next event of
  the queue. So the commit fires once for each qualifying event, however close together
  the events arrived.
\<close>

lemma on_any_event_from_idle:
  assumes "\<not> timer_running h"
  shows "\<not> timer_running (fst (on_any_event script ev (h, w)))
         \<and> length (firings (wtrace (snd (on_any_event script ev (h, w))))) =
             length (firings (wtrace w))
               + (if is_directory ev \<or> startswith (basename (src_path ev)) ''.'' then 0 else 1)"
proof (cases "is_directory ev \<or> startswith (basename (src_path ev)) ''.''")
  case True
  then show ?thesis
    using assms by (simp add: on_any_event_ignored)
next
  case False
  let ?w1 = "wlogger INFO (Change_detected (src_path ev) (event_type ev)) w"
  let ?h1 = "h\<lparr>last_modified := now w, timer_running := True\<rparr>"
  have run: "on_any_event script ev (h, w) = start_timer script (?h1, ?w1)"
    using False assms by (simp add: on_any_event_idle)
  obtain k where "firings (wtrace (snd (start_timer script (?h1, ?w1))))
                    = firings (wtrace ?w1) @ [now ?w1 + int k * 1000000]"
    using start_timer_fires [of script ?h1 ?w1] by blast
  then have "length (firings (wtrace (snd (start_timer script (?h1, ?w1)))))
               = Suc (length (firings (wtrace w)))"
    by (simp add: wlogger_def firings_append)
  then show ?thesis
    using False by (simp add: run start_timer_handler)
qed

lemma dispatch_events_fires_per_event:
  "\<not> timer_running h \<Longrightarrow>
   \<not> timer_running (fst (dispatch_events script queue (h, w)))
   \<and> length (firings (wtrace (snd (dispatch_events script queue (h, w))))) =
       length (firings (wtrace w))
         + length (filter (\<lambda>(t, ev). \<not> (is_directory ev \<or> startswith (basename (src_path ev)) ''.''))
                          queue)"
proof (induction queue arbitrary: h w)
  case Nil
  then show ?case by simp
next
  case (Cons a queue)
  obtain t ev where a: "a = (t, ev)" by (cases a)
  let ?w = "w\<lparr>now := max (now w) t\<rparr>"
  obtain h1 w1 where step: "on_any_event script ev (h, ?w) = (h1, w1)"
    by (cases "on_any_event script ev (h, ?w)")
  have idle: "\<not> timer_running h1"
    and count: "length (firings (wtrace w1)) =
                  length (firings (wtrace w))
                    + (if is_directory ev \<or> startswith (basename (src_path ev)) ''.'' then 0 else 1)"
    using on_any_event_from_idle [OF Cons.prems, of script ev ?w] step by simp_all
  show ?case
    using Cons.IH [OF idle, of w1] count by (simp add: a step)
qed

text \<open>
  C1. The handler has a branch for an event that finds \<open>timer_running\<close> set, which logs
  the event, sets \<open>last_modified\<close> and starts nothing; no event of a run takes it. An
  event that arrives while a wait is in progress stays in the queue until the wait has
  fired and the flag is clear again. It is then handled as a first event is:
  \<open>last_modified\<close> becomes the time at which it is handled, not the time at which it
  arrived, and a second wait starts, which ends in a second commit. With a debounce
  time of five seconds, an event at 0 s and another at 2 s give a commit at 5 s and a
  commit at 10 s.
\<close>

theorem event_during_wait_starts_second_wait:
  "dispatch_events script_ok
     [(0, modified ''docs/a.md''), (2000000, modified ''docs/b.md'')]
     (ChangeHandler 5 watcher_world0, watcher_world0)
   = (\<lparr>debounce_time = 5, last_modified = 5000000, timer_running = False\<rparr>,
      \<lparr>now = 10000000,
       wtrace = [WLog INFO (Change_detected ''docs/a.md'' ''modified''),
                 WSleep 1, WSleep 1, WSleep 1, WSleep 1, WSleep 1,
                 WLog INFO (Changes_settled 5), WLog INFO Triggering_auto_commit,
                 Commit_script 5000000 0, WLog INFO Auto_commit_completed,
                 WLog INFO (Change_detected ''docs/b.md'' ''modified''),
                 WSleep 1, WSleep 1, WSleep 1, WSleep 1, WSleep 1,
                 WLog INFO (Changes_settled 5), WLog INFO Triggering_auto_commit,
                 Commit_script 10000000 0, WLog INFO Auto_commit_completed]\<rparr>)"
  by code_simp

subsection \<open>A continuous stream of events\<close>

text \<open>
  C6. The handler calls the timer loop and waits for it, so the observer thread handles
  no other event until the commit has fired, and no event can set \<open>last_modified\<close>
  while the loop polls. With a debounce time of five seconds and an event every second,
  the commit script is started five seconds after the first event, while the events
  keep coming, and once more for every event that waited in the queue, five seconds
  apart.
\<close>

theorem continuous_stream_still_fires:
  "firings (wtrace (snd (dispatch_events script_ok
      [(0, modified ''docs/a.md''), (1000000, modified ''docs/a.md''),
       (2000000, modified ''docs/a.md''), (3000000, modified ''docs/a.md''),
       (4000000, modified ''docs/a.md''), (5000000, modified ''docs/a.md''),
       (6000000, modified ''docs/a.md'')]
      (ChangeHandler 5 watcher_world0, watcher_world0))))
   = [5000000, 10000000, 15000000, 20000000, 25000000, 30000000, 35000000]"
  by code_simp

end
